theory Spec2Isabelle
  imports Main "HOL-Library.Char_ord" "HOL-Library.List_Lexorder"
begin

section \<open>Work session logger: timer state machine and log store\<close>

text \<open>
  A shallow embedding of \<^verbatim>\<open>work_logger_app.py\<close>: the session timer
  (\<^verbatim>\<open>toggle_session\<close>, \<^verbatim>\<open>update_timer\<close>) and the log store
  (\<^verbatim>\<open>save_log\<close>, \<^verbatim>\<open>parse_duration\<close>,
  \<^verbatim>\<open>format_duration_seconds\<close>, \<^verbatim>\<open>load_logs\<close>).

  Scope of the model.
  \<^item> Strings are \<^typ>\<open>string\<close>; the library functions \<^verbatim>\<open>int\<close>,
    \<^verbatim>\<open>strptime\<close> and the \<^verbatim>\<open>csv\<close> module are modelled on ASCII text
    (a character outside ASCII is neither a digit nor white space), with the default
    \<^verbatim>\<open>excel\<close> dialect and without the size limits of the library (digits of an
    integer, length of a field).
  \<^item> \<^verbatim>\<open>timedelta.total_seconds()\<close> is a float in Python; the model divides the
    integer number of microseconds exactly.
  \<^item> Audio playback, widget texts and widget states are left out: they never feed back
    into the timer state or the log. Message boxes are recorded as a list.
\<close>

subsection \<open>Exceptions\<close>

datatype py_error =
    ValueError | IndexError | KeyError | AttributeError | TypeError | CsvError

subsection \<open>Python string and integer helpers\<close>

text \<open>\<^verbatim>\<open>str.split(sep)\<close> for a one-character separator: always at least one part.\<close>

fun split_on :: "char \<Rightarrow> string \<Rightarrow> string list" where
  "split_on c [] = [[]]"
| "split_on c (x # xs) =
     (if x = c then [] # split_on c xs
      else (case split_on c xs of
              [] \<Rightarrow> [[x]]
            | p # ps \<Rightarrow> (x # p) # ps))"

definition is_digit :: "char \<Rightarrow> bool" where
  "is_digit c = (c \<in> set ''0123456789'')"

definition digit_val :: "char \<Rightarrow> nat" where
  "digit_val c = of_char c - 48"

definition digit_char :: "nat \<Rightarrow> char" where
  "digit_char n = ''0123456789'' ! n"

text \<open>White space as \<^verbatim>\<open>int\<close> strips it: the ASCII characters with
  \<^verbatim>\<open>str.isspace()\<close>.\<close>

definition is_space :: "char \<Rightarrow> bool" where
  "is_space c = (c \<in> set [CHR 0x09, CHR 0x0A, CHR 0x0B, CHR 0x0C, CHR 0x0D,
                           CHR 0x1C, CHR 0x1D, CHR 0x1E, CHR 0x1F, CHR '' ''])"

definition strip :: "string \<Rightarrow> string" where
  "strip s = rev (dropWhile is_space (rev (dropWhile is_space s)))"

text \<open>Decimal digits after the first one; a single underscore may stand between two digits.\<close>

fun parse_digits :: "nat \<Rightarrow> string \<Rightarrow> nat option" where
  "parse_digits acc [] = Some acc"
| "parse_digits acc (c # cs) =
     (if is_digit c then parse_digits (10 * acc + digit_val c) cs
      else if c = CHR ''_'' then
        (case cs of
           [] \<Rightarrow> None
         | d # ds \<Rightarrow> if is_digit d then parse_digits (10 * acc + digit_val d) ds else None)
      else None)"

definition parse_unsigned :: "string \<Rightarrow> nat option" where
  "parse_unsigned s =
     (case s of
        [] \<Rightarrow> None
      | c # cs \<Rightarrow> if is_digit c then parse_digits (digit_val c) cs else None)"

text \<open>\<^verbatim>\<open>int(s)\<close> on a string: white space stripped, an optional sign, decimal digits;
  anything else raises \<^verbatim>\<open>ValueError\<close>.\<close>

definition py_int :: "string \<Rightarrow> py_error + int" where
  "py_int s =
     (case strip s of
        [] \<Rightarrow> Inl ValueError
      | c # cs \<Rightarrow>
          if c = CHR ''-'' then
            (case parse_unsigned cs of None \<Rightarrow> Inl ValueError | Some n \<Rightarrow> Inr (- int n))
          else if c = CHR ''+'' then
            (case parse_unsigned cs of None \<Rightarrow> Inl ValueError | Some n \<Rightarrow> Inr (int n))
          else
            (case parse_unsigned (c # cs) of None \<Rightarrow> Inl ValueError | Some n \<Rightarrow> Inr (int n)))"

text \<open>\<^verbatim>\<open>list(map(int, parts))\<close>: the first part that is no integer raises.\<close>

fun map_int :: "string list \<Rightarrow> py_error + int list" where
  "map_int [] = Inr []"
| "map_int (p # ps) =
     (case py_int p of
        Inl e \<Rightarrow> Inl e
      | Inr n \<Rightarrow> (case map_int ps of Inl e \<Rightarrow> Inl e | Inr ns \<Rightarrow> Inr (n # ns)))"

text \<open>\<^verbatim>\<open>str(n)\<close> for a natural number.\<close>

fun str_nat :: "nat \<Rightarrow> string" where
  "str_nat n = (if n < 10 then [digit_char n] else str_nat (n div 10) @ [digit_char (n mod 10)])"

declare str_nat.simps [simp del]

text \<open>\<^verbatim>\<open>s.zfill(w)\<close> on a digit string.\<close>

definition zfill :: "nat \<Rightarrow> string \<Rightarrow> string" where
  "zfill w s = replicate (w - length s) CHR ''0'' @ s"

text \<open>The format \<^verbatim>\<open>f"{n:02}"\<close> of an integer: zero padding to width 2, the sign
  counted in the width and written first.\<close>

definition fmt02 :: "int \<Rightarrow> string" where
  "fmt02 n = (if n < 0 then CHR ''-'' # zfill 1 (str_nat (nat (- n))) else zfill 2 (str_nat (nat n)))"

subsection \<open>Durations\<close>

text \<open>\<^verbatim>\<open>parse_duration\<close>: every part is converted first (\<^verbatim>\<open>ValueError\<close>), then
  the first three are read (\<^verbatim>\<open>IndexError\<close> when there are fewer).\<close>

definition parse_duration :: "string \<Rightarrow> py_error + int" where
  "parse_duration duration_str =
     (case map_int (split_on CHR '':'' duration_str) of
        Inl e \<Rightarrow> Inl e
      | Inr parts \<Rightarrow>
          (case parts of
             h # m # s # _ \<Rightarrow> Inr (h * 3600 + m * 60 + s)
           | _ \<Rightarrow> Inl IndexError))"

definition format_duration_seconds :: "int \<Rightarrow> string" where
  "format_duration_seconds total_seconds =
     (let hours = total_seconds div 3600;
          minutes = (total_seconds mod 3600) div 60;
          seconds = total_seconds mod 60
      in fmt02 hours @ '':'' @ fmt02 minutes @ '':'' @ fmt02 seconds)"

subsection \<open>Wall-clock instants\<close>

text \<open>A naive \<^verbatim>\<open>datetime\<close>, as \<^verbatim>\<open>datetime.datetime.now()\<close> returns it.\<close>

record datetime =
  year :: nat
  month :: nat
  day :: nat
  hour :: nat
  minute :: nat
  second :: nat
  microsecond :: nat

definition is_leap :: "nat \<Rightarrow> bool" where
  "is_leap y = (y mod 4 = 0 \<and> (y mod 100 \<noteq> 0 \<or> y mod 400 = 0))"

definition days_in_month :: "nat \<Rightarrow> nat \<Rightarrow> nat" where
  "days_in_month y m =
     (if m = 2 then (if is_leap y then 29 else 28)
      else if m \<in> {4, 6, 9, 11} then 30 else 31)"

definition days_before_year :: "nat \<Rightarrow> nat" where
  "days_before_year y = (let p = y - 1 in p * 365 + p div 4 - p div 100 + p div 400)"

definition days_before_month :: "nat \<Rightarrow> nat \<Rightarrow> nat" where
  "days_before_month y m = [0, 0, 31, 59, 90, 120, 151, 181, 212, 243, 273, 304, 334] ! m
     + (if m > 2 \<and> is_leap y then 1 else 0)"

definition toordinal :: "datetime \<Rightarrow> nat" where
  "toordinal d = days_before_year (year d) + days_before_month (year d) (month d) + day d"

text \<open>The values a \<^verbatim>\<open>datetime\<close> object can hold.\<close>

definition valid_datetime :: "datetime \<Rightarrow> bool" where
  "valid_datetime d =
     (1 \<le> year d \<and> year d \<le> 9999 \<and> 1 \<le> month d \<and> month d \<le> 12 \<and>
      1 \<le> day d \<and> day d \<le> days_in_month (year d) (month d) \<and>
      hour d < 24 \<and> minute d < 60 \<and> second d < 60 \<and> microsecond d < 1000000)"

text \<open>Microseconds since the start of day 0 of the proleptic calendar: the difference of two
  of them is the \<^verbatim>\<open>timedelta\<close> of \<^verbatim>\<open>end - start\<close>.\<close>

definition micros :: "datetime \<Rightarrow> int" where
  "micros d =
     ((int (toordinal d) * 86400 + int (hour d) * 3600 + int (minute d) * 60 + int (second d))
        * 1000000) + int (microsecond d)"

text \<open>\<^verbatim>\<open>int((b - a).total_seconds())\<close>: \<^verbatim>\<open>total_seconds()\<close> divides the
  microseconds of the \<^verbatim>\<open>timedelta\<close> by \<^verbatim>\<open>10**6\<close> as a float, and
  \<^verbatim>\<open>int\<close> of a float rounds towards zero.\<close>

text \<open>\<^verbatim>\<open>int.bit_length()\<close>.\<close>

fun bit_length :: "nat \<Rightarrow> nat" where
  "bit_length n = (if n = 0 then 0 else Suc (bit_length (n div 2)))"

declare bit_length.simps [simp del]

text \<open>The integer nearest to \<open>a / b\<close>, a tie going to the even one.\<close>

definition round_half_even :: "nat \<Rightarrow> nat \<Rightarrow> nat" where
  "round_half_even a b =
     (let q = a div b; r = a mod b
      in if 2 * r < b then q
         else if b < 2 * r then q + 1
         else if even q then q else q + 1)"

text \<open>\<^verbatim>\<open>int(x / 10**6)\<close> for a number \<open>x\<close> of microseconds that is not negative. The
  division of two integers yields the double nearest to the quotient (53 bits, ties to even):
  with \<open>2 ^ k \<le> x div 10 ^ 6 < 2 ^ (k + 1)\<close> it is a multiple of \<open>2 ^ (k - 52)\<close>.
  \<^verbatim>\<open>int\<close> then drops the fraction. A quotient below 1 is at most 0.999999, which is not
  rounded up to 1.\<close>

definition total_seconds_int :: "nat \<Rightarrow> nat" where
  "total_seconds_int x =
     (if x < 1000000 then 0
      else
        (let k = bit_length (x div 1000000) - 1 in
         if k \<le> 52 then round_half_even (x * 2 ^ (52 - k)) 1000000 div 2 ^ (52 - k)
         else round_half_even x (1000000 * 2 ^ (k - 52)) * 2 ^ (k - 52)))"

text \<open>The same for a difference of either sign: rounding to the nearest double is
  symmetric.\<close>

definition int_total_seconds :: "int \<Rightarrow> int" where
  "int_total_seconds d =
     (if d < 0 then - int (total_seconds_int (nat (- d))) else int (total_seconds_int (nat d)))"

definition elapsed_seconds :: "datetime \<Rightarrow> datetime \<Rightarrow> int" where
  "elapsed_seconds a b = int_total_seconds (micros b - micros a)"

text \<open>\<^verbatim>\<open>strftime("%Y-%m-%d")\<close> and \<^verbatim>\<open>strftime("%H:%M:%S")\<close>.\<close>

definition strftime_date :: "datetime \<Rightarrow> string" where
  "strftime_date d =
     zfill 4 (str_nat (year d)) @ ''-'' @ zfill 2 (str_nat (month d)) @ ''-'' @ zfill 2 (str_nat (day d))"

definition strftime_time :: "datetime \<Rightarrow> string" where
  "strftime_time d =
     zfill 2 (str_nat (hour d)) @ '':'' @ zfill 2 (str_nat (minute d)) @ '':'' @ zfill 2 (str_nat (second d))"

text \<open>\<^verbatim>\<open>datetime.strptime(s, '%H:%M:%S')\<close>: each field is one or two digits, the hour at
  most 23, minute and second at most 59, and nothing may follow; the result is the time of
  day. Anything else raises \<^verbatim>\<open>ValueError\<close>.\<close>

definition two_digit_field :: "string \<Rightarrow> nat \<Rightarrow> nat option" where
  "two_digit_field s bound =
     (if (length s = 1 \<or> length s = 2) \<and> list_all is_digit s then
        (let v = fold (\<lambda>c acc. 10 * acc + digit_val c) s 0
         in if v \<le> bound then Some v else None)
      else None)"

definition strptime_hms :: "string \<Rightarrow> py_error + (nat \<times> nat \<times> nat)" where
  "strptime_hms s =
     (case split_on CHR '':'' s of
        [h, m, sec] \<Rightarrow>
          (case (two_digit_field h 23, two_digit_field m 59, two_digit_field sec 59) of
             (Some hv, Some mv, Some sv) \<Rightarrow> Inr (hv, mv, sv)
           | _ \<Rightarrow> Inl ValueError)
      | _ \<Rightarrow> Inl ValueError)"

text \<open>\<^verbatim>\<open>strftime('%I:%M:%S %p')\<close> of a time of day (12-hour clock).\<close>

definition strftime_12h :: "nat \<times> nat \<times> nat \<Rightarrow> string" where
  "strftime_12h t =
     (case t of (h, m, s) \<Rightarrow>
        zfill 2 (str_nat (if h mod 12 = 0 then 12 else h mod 12)) @ '':'' @
        zfill 2 (str_nat m) @ '':'' @ zfill 2 (str_nat s) @
        (if h < 12 then '' AM'' else '' PM''))"

subsection \<open>The log file and its directory\<close>

text \<open>The part of the file system the program touches: the directory of
  \<^verbatim>\<open>LOG_FILE\<close>, the file's text (\<open>None\<close> when the file does not exist), and
  whether \<^verbatim>\<open>os.makedirs\<close>, opening for append and opening for reading would raise.\<close>

record fs =
  log_dir_exists :: bool
  makedirs_fails :: bool
  append_fails :: bool
  read_fails :: bool
  log_file :: "string option"

text \<open>The message boxes of the program, by what they report.\<close>

datatype dialog =
    DirectoryError | FileWriteError | ReadError | CsvReadError | LoadError py_error
  | PomodoroFinished

subsection \<open>Writing rows: \<^verbatim>\<open>csv.DictWriter\<close>\<close>

definition needs_quote :: "string \<Rightarrow> bool" where
  "needs_quote s = list_ex (\<lambda>c. c = CHR '','' \<or> c = CHR 0x22 \<or> c = CHR 0x0D \<or> c = CHR 0x0A) s"

definition csv_field :: "string \<Rightarrow> string" where
  "csv_field s =
     (if needs_quote s then
        CHR 0x22 # concat (map (\<lambda>c. if c = CHR 0x22 then [c, c] else [c]) s) @ [CHR 0x22]
      else s)"

fun join_fields :: "string list \<Rightarrow> string" where
  "join_fields [] = []"
| "join_fields [f] = f"
| "join_fields (f # g # rest) = f @ CHR '','' # join_fields (g # rest)"

definition csv_row :: "string list \<Rightarrow> string" where
  "csv_row vals = join_fields (map csv_field vals) @ [CHR 0x0D, CHR 0x0A]"

definition fieldnames :: "string list" where
  "fieldnames = [''Date'', ''Start Time'', ''End Time'', ''Duration'']"

text \<open>\<^verbatim>\<open>save_log\<close>. The file counts as existing as it was before the open; the size is
  read after the open, when a new file has size 0.\<close>

definition save_log ::
  "fs \<Rightarrow> string \<Rightarrow> string \<Rightarrow> string \<Rightarrow> string \<Rightarrow> fs \<times> dialog list" where
  "save_log f date start_time_str end_time_str duration_str =
     (let file_exists = (log_file f \<noteq> None) in
      if \<not> log_dir_exists f \<and> makedirs_fails f then (f, [DirectoryError])
      else
        (let f1 = f\<lparr>log_dir_exists := True\<rparr> in
         if append_fails f1 then (f1, [FileWriteError])
         else
           (let old = (case log_file f1 of None \<Rightarrow> [] | Some c \<Rightarrow> c);
                header = (if \<not> file_exists \<or> length old = 0 then csv_row fieldnames else []);
                line = csv_row [date, start_time_str, end_time_str, duration_str]
            in (f1\<lparr>log_file := Some (old @ header @ line)\<rparr>, []))))"

subsection \<open>Reading rows: \<^verbatim>\<open>csv.reader\<close> and \<^verbatim>\<open>csv.DictReader\<close>\<close>

text \<open>A file opened with \<^verbatim>\<open>newline=''\<close> is iterated line by line; a line ends after
  a line feed, after a carriage return, or after the pair, and keeps its ending.\<close>

fun split_lines :: "string \<Rightarrow> string \<Rightarrow> string list" where
  "split_lines cur [] = (if cur = [] then [] else [cur])"
| "split_lines cur (c # cs) =
     (if c = CHR 0x0A then (cur @ [c]) # split_lines [] cs
      else if c = CHR 0x0D then
        (case cs of
           [] \<Rightarrow> [cur @ [c]]
         | d # ds \<Rightarrow>
             if d = CHR 0x0A then (cur @ [c, d]) # split_lines [] ds
             else (cur @ [c]) # split_lines [] cs)
      else split_lines (cur @ [c]) cs)"

datatype reader_state =
    START_RECORD | START_FIELD | IN_FIELD | IN_QUOTED_FIELD | QUOTE_IN_QUOTED_FIELD | EAT_CRNL

record parser =
  state :: reader_state
  fields_acc :: "string list"
  field_buf :: string

definition parse_reset :: parser where
  "parse_reset = \<lparr>state = START_RECORD, fields_acc = [], field_buf = []\<rparr>"

definition parse_save_field :: "parser \<Rightarrow> parser" where
  "parse_save_field p = p\<lparr>fields_acc := fields_acc p @ [field_buf p], field_buf := []\<rparr>"

definition parse_add_char :: "parser \<Rightarrow> char \<Rightarrow> parser" where
  "parse_add_char p c = p\<lparr>field_buf := field_buf p @ [c]\<rparr>"

text \<open>One step of the reader on a character of the line (\<open>Some c\<close>) or on the end of the line
  (\<open>None\<close>), for the \<^verbatim>\<open>excel\<close> dialect: comma, double quote, doubled quotes, not
  strict.\<close>

definition is_nl :: "char \<Rightarrow> bool" where
  "is_nl c = (c = CHR 0x0A \<or> c = CHR 0x0D)"

text \<open>The case \<^verbatim>\<open>START_FIELD\<close>, which \<^verbatim>\<open>START_RECORD\<close> falls through to on a
  character that is no line ending.\<close>

definition parse_start_field :: "parser \<Rightarrow> char \<Rightarrow> py_error + parser" where
  "parse_start_field p c =
     (if is_nl c then Inr ((parse_save_field p)\<lparr>state := EAT_CRNL\<rparr>)
      else if c = CHR 0x22 then Inr (p\<lparr>state := IN_QUOTED_FIELD\<rparr>)
      else if c = CHR '','' then Inr ((parse_save_field p)\<lparr>state := START_FIELD\<rparr>)
      else Inr ((parse_add_char p c)\<lparr>state := IN_FIELD\<rparr>))"

fun parse_process_char :: "parser \<Rightarrow> char option \<Rightarrow> py_error + parser" where
  "parse_process_char p None =
     (case state p of
        START_RECORD \<Rightarrow> Inr p
      | IN_QUOTED_FIELD \<Rightarrow> Inr p
      | EAT_CRNL \<Rightarrow> Inr (p\<lparr>state := START_RECORD\<rparr>)
      | _ \<Rightarrow> Inr ((parse_save_field p)\<lparr>state := START_RECORD\<rparr>))"
| "parse_process_char p (Some c) =
     (case state p of
        START_RECORD \<Rightarrow>
          if is_nl c then Inr (p\<lparr>state := EAT_CRNL\<rparr>)
          else parse_start_field p c
      | START_FIELD \<Rightarrow> parse_start_field p c
      | IN_FIELD \<Rightarrow>
          if is_nl c then Inr ((parse_save_field p)\<lparr>state := EAT_CRNL\<rparr>)
          else if c = CHR '','' then Inr ((parse_save_field p)\<lparr>state := START_FIELD\<rparr>)
          else Inr (parse_add_char p c)
      | IN_QUOTED_FIELD \<Rightarrow>
          if c = CHR 0x22 then Inr (p\<lparr>state := QUOTE_IN_QUOTED_FIELD\<rparr>)
          else Inr (parse_add_char p c)
      | QUOTE_IN_QUOTED_FIELD \<Rightarrow>
          if c = CHR 0x22 then Inr ((parse_add_char p c)\<lparr>state := IN_QUOTED_FIELD\<rparr>)
          else if c = CHR '','' then Inr ((parse_save_field p)\<lparr>state := START_FIELD\<rparr>)
          else if is_nl c then Inr ((parse_save_field p)\<lparr>state := EAT_CRNL\<rparr>)
          else Inr ((parse_add_char p c)\<lparr>state := IN_FIELD\<rparr>)
      | EAT_CRNL \<Rightarrow> if is_nl c then Inr p else Inl CsvError)"

fun process_line :: "parser \<Rightarrow> string \<Rightarrow> py_error + parser" where
  "process_line p [] = parse_process_char p None"
| "process_line p (c # cs) =
     (case parse_process_char p (Some c) of
        Inl e \<Rightarrow> Inl e
      | Inr p' \<Rightarrow> process_line p' cs)"

text \<open>The records of the reader: lines are consumed until the state is
  \<^verbatim>\<open>START_RECORD\<close> again; when the input ends inside a quoted field, or with
  characters in the buffer, the record read so far is returned.\<close>

fun read_records :: "parser \<Rightarrow> string list \<Rightarrow> py_error + string list list" where
  "read_records p [] =
     (if field_buf p \<noteq> [] \<or> state p = IN_QUOTED_FIELD then Inr [fields_acc (parse_save_field p)]
      else Inr [])"
| "read_records p (l # ls) =
     (case process_line p l of
        Inl e \<Rightarrow> Inl e
      | Inr p' \<Rightarrow>
          if state p' = START_RECORD then
            (case read_records parse_reset ls of
               Inl e \<Rightarrow> Inl e
             | Inr rs \<Rightarrow> Inr (fields_acc p' # rs))
          else read_records p' ls)"

definition csv_reader :: "string \<Rightarrow> py_error + string list list" where
  "csv_reader content = read_records parse_reset (split_lines [] content)"

text \<open>A value of a row dictionary: a string, or \<^verbatim>\<open>None\<close> (the \<^verbatim>\<open>restval\<close> of a
  row shorter than the header).\<close>

datatype cell = Str string | NoneVal

type_synonym row = "string \<rightharpoonup> cell"

text \<open>\<^verbatim>\<open>dict(zip(fieldnames, row))\<close>, then \<^verbatim>\<open>None\<close> under each field name the row
  is too short for. The surplus values of a longer row go under the key \<^verbatim>\<open>None\<close>,
  which is no string and which the program never reads: the model leaves that entry out.\<close>

definition dict_row :: "string list \<Rightarrow> string list \<Rightarrow> row" where
  "dict_row names r =
     fold (\<lambda>(k, v) d. d(k \<mapsto> v))
       (zip names (map Str r @ replicate (length names - length r) NoneVal)) Map.empty"

text \<open>\<^verbatim>\<open>csv.DictReader\<close>: the first record gives the field names, empty records are
  skipped.\<close>

definition dict_reader :: "string \<Rightarrow> py_error + row list" where
  "dict_reader content =
     (case csv_reader content of
        Inl e \<Rightarrow> Inl e
      | Inr [] \<Rightarrow> Inr []
      | Inr (names # recs) \<Rightarrow> Inr (map (dict_row names) (filter (\<lambda>r. r \<noteq> []) recs)))"

subsection \<open>The log view: \<^verbatim>\<open>load_logs\<close>\<close>

text \<open>The tree widget: one entry per day (the values of the parent row) with the values of
  its session rows, in insertion order.\<close>

type_synonym row_values = "string \<times> string \<times> string \<times> string"

type_synonym tree = "(row_values \<times> row_values list) list"

text \<open>How Python prints a cell (\<^verbatim>\<open>str\<close>, f-strings).\<close>

fun cell_str :: "cell \<Rightarrow> string" where
  "cell_str (Str s) = s"
| "cell_str NoneVal = ''None''"

text \<open>The check \<^verbatim>\<open>all(key in row for key in [...])\<close>.\<close>

definition has_fields :: "row \<Rightarrow> bool" where
  "has_fields r = list_all (\<lambda>key. r key \<noteq> None) fieldnames"

text \<open>\<^verbatim>\<open>logs_by_date[key].append(row)\<close> on a \<^verbatim>\<open>defaultdict(list)\<close>, which keeps its
  keys in insertion order.\<close>

fun add_log :: "(cell \<times> row list) list \<Rightarrow> cell \<Rightarrow> row \<Rightarrow> (cell \<times> row list) list" where
  "add_log [] k r = [(k, [r])]"
| "add_log ((k', rs) # rest) k r =
     (if k' = k then (k', rs @ [r]) # rest else (k', rs) # add_log rest k r)"

fun group_rows :: "row list \<Rightarrow> (cell \<times> row list) list \<Rightarrow> (cell \<times> row list) list" where
  "group_rows [] logs_by_date = logs_by_date"
| "group_rows (r # rs) logs_by_date =
     (if has_fields r then
        (case r ''Date'' of
           None \<Rightarrow> group_rows rs logs_by_date
         | Some k \<Rightarrow> group_rows rs (add_log logs_by_date k r))
      else group_rows rs logs_by_date)"

text \<open>\<^verbatim>\<open>sorted(keys, reverse=True)\<close>. The keys are distinct. Fewer than two keys are
  never compared; otherwise comparing \<^verbatim>\<open>None\<close> with a string raises
  \<^verbatim>\<open>TypeError\<close>.\<close>

definition sorted_dates :: "cell list \<Rightarrow> py_error + cell list" where
  "sorted_dates keys =
     (if length keys < 2 then Inr keys
      else if NoneVal \<in> set keys then Inl TypeError
      else Inr (map Str (rev (sort (map cell_str keys)))))"

text \<open>The loop that sums the day: only \<^verbatim>\<open>ValueError\<close> is caught there.\<close>

fun day_total :: "row list \<Rightarrow> int \<Rightarrow> py_error + int" where
  "day_total [] total_day_seconds = Inr total_day_seconds"
| "day_total (session # rest) total_day_seconds =
     (case session ''Duration'' of
        None \<Rightarrow> Inl KeyError
      | Some NoneVal \<Rightarrow> Inl AttributeError
      | Some (Str d) \<Rightarrow>
          (case parse_duration d of
             Inl ValueError \<Rightarrow> day_total rest total_day_seconds
           | Inl e \<Rightarrow> Inl e
           | Inr n \<Rightarrow> day_total rest (total_day_seconds + n)))"

definition date_info :: "cell \<Rightarrow> nat \<Rightarrow> string" where
  "date_info date_str session_count =
     cell_str date_str @ '' ('' @ str_nat session_count @ '' session'' @
     (if session_count \<noteq> 1 then ''s'' else []) @ '')''"

text \<open>The label of a session row: two spaces, the box-drawing characters U+2514 and U+2500
  (in UTF-8), and the number.\<close>

definition session_info :: "nat \<Rightarrow> string" where
  "session_info i =
     [CHR '' '', CHR '' '', CHR 0xE2, CHR 0x94, CHR 0x94, CHR 0xE2, CHR 0x94, CHR 0x80] @
     '' Session '' @ str_nat (i + 1)"

text \<open>The displayed start and end time. \<^verbatim>\<open>strptime\<close> on \<^verbatim>\<open>None\<close> raises
  \<^verbatim>\<open>TypeError\<close>, which the inner handler does not catch, and so does
  \<^verbatim>\<open>None + " (Err)"\<close> inside the handler.\<close>

definition err_display :: "string \<Rightarrow> cell \<Rightarrow> py_error + (string \<times> string)" where
  "err_display s en =
     (case en of
        NoneVal \<Rightarrow> Inl TypeError
      | Str e \<Rightarrow> Inr (s @ '' (Err)'', e @ '' (Err)''))"

definition display_times :: "cell \<Rightarrow> cell \<Rightarrow> py_error + (string \<times> string)" where
  "display_times st en =
     (case st of
        NoneVal \<Rightarrow> Inl TypeError
      | Str s \<Rightarrow>
          (case strptime_hms s of
             Inl _ \<Rightarrow> err_display s en
           | Inr start_time_obj \<Rightarrow>
               (case en of
                  NoneVal \<Rightarrow> Inl TypeError
                | Str e \<Rightarrow>
                    (case strptime_hms e of
                       Inl _ \<Rightarrow> err_display s en
                     | Inr end_time_obj \<Rightarrow>
                         Inr (strftime_12h start_time_obj, strftime_12h end_time_obj)))))"

definition session_values :: "nat \<Rightarrow> row \<Rightarrow> py_error + row_values" where
  "session_values i session_row =
     (case (session_row ''Start Time'', session_row ''End Time'', session_row ''Duration'') of
        (Some st, Some en, Some du) \<Rightarrow>
          (case display_times st en of
             Inl e \<Rightarrow> Inl e
           | Inr (start_time_display, end_time_display) \<Rightarrow>
               Inr (session_info i, start_time_display, end_time_display, cell_str du))
      | _ \<Rightarrow> Inl KeyError)"

text \<open>The session rows of one day, inserted one by one; an exception leaves the rows inserted
  before it in the tree.\<close>

fun insert_sessions ::
  "nat \<Rightarrow> row list \<Rightarrow> row_values list \<Rightarrow> row_values list \<times> py_error option" where
  "insert_sessions i [] children = (children, None)"
| "insert_sessions i (session_row # rest) children =
     (case session_values i session_row of
        Inl e \<Rightarrow> (children, Some e)
      | Inr v \<Rightarrow> insert_sessions (i + 1) rest (children @ [v]))"

definition sessions_for :: "(cell \<times> row list) list \<Rightarrow> cell \<Rightarrow> row list" where
  "sessions_for logs_by_date date_str =
     (case map_of logs_by_date date_str of None \<Rightarrow> [] | Some rs \<Rightarrow> rs)"

text \<open>The loop over the sorted dates. An exception ends it; what was inserted stays.\<close>

fun render_days ::
  "(cell \<times> row list) list \<Rightarrow> cell list \<Rightarrow> tree \<Rightarrow> tree \<times> py_error option" where
  "render_days logs_by_date [] t = (t, None)"
| "render_days logs_by_date (date_str # rest) t =
     (let sessions_for_day = sessions_for logs_by_date date_str in
      case day_total sessions_for_day 0 of
        Inl e \<Rightarrow> (t, Some e)
      | Inr total_day_seconds \<Rightarrow>
          (let parent = (date_info date_str (length sessions_for_day), [], [],
                         format_duration_seconds total_day_seconds) in
           case insert_sessions 0 sessions_for_day [] of
             (children, Some e) \<Rightarrow> (t @ [(parent, children)], Some e)
           | (children, None) \<Rightarrow> render_days logs_by_date rest (t @ [(parent, children)])))"

text \<open>Everything after the rows are read: grouping, sorting, rendering.\<close>

definition render_rows :: "row list \<Rightarrow> tree \<times> dialog list" where
  "render_rows rows =
     (let logs_by_date = group_rows rows [] in
      case sorted_dates (map fst logs_by_date) of
        Inl e \<Rightarrow> ([], [LoadError e])
      | Inr dates \<Rightarrow>
          (case render_days logs_by_date dates [] of
             (t, None) \<Rightarrow> (t, [])
           | (t, Some e) \<Rightarrow> (t, [LoadError e])))"

text \<open>\<^verbatim>\<open>load_logs\<close>: the tree is cleared first; the result is the new tree and the
  message boxes shown.\<close>

definition load_logs :: "fs \<Rightarrow> tree \<times> dialog list" where
  "load_logs f =
     (case log_file f of
        None \<Rightarrow> ([], [])
      | Some content \<Rightarrow>
          if \<not> length content > 0 then ([], [])
          else if read_fails f then ([], [ReadError])
          else
            (case dict_reader content of
               Inl e \<Rightarrow> ([], [CsvReadError])
             | Inr rows \<Rightarrow> render_rows rows))"

subsection \<open>The session timer\<close>

text \<open>The fields of \<^verbatim>\<open>WorkLoggerApp\<close> that the timer and the log use, together with the
  world around them: the tree widget, the check box \<^verbatim>\<open>pomodoro_var\<close>, the file system,
  the message boxes shown so far, and the clock. The \<open>n\<close>-th call of
  \<^verbatim>\<open>datetime.datetime.now()\<close> returns \<open>clock n\<close>; \<open>clock_reads\<close> counts the calls.
  \<open>timer_id\<close> tells whether an id of a pending \<^verbatim>\<open>after\<close> call is stored.\<close>

record world =
  is_session_active :: bool
  session_start_time :: "datetime option"
  timer_id :: bool
  is_pomodoro_session :: bool
  pomodoro_var :: bool
  log_tree :: tree
  disk :: fs
  dialogs :: "dialog list"
  clock :: "nat \<Rightarrow> datetime"
  clock_reads :: nat

definition pomodoro_duration_seconds :: int where
  "pomodoro_duration_seconds = 25 * 60"

definition now :: "world \<Rightarrow> datetime \<times> world" where
  "now w = (clock w (clock_reads w), w\<lparr>clock_reads := clock_reads w + 1\<rparr>)"

text \<open>The string \<^verbatim>\<open>duration_str\<close> of \<^verbatim>\<open>toggle_session\<close>.\<close>

definition duration_str :: "datetime \<Rightarrow> datetime \<Rightarrow> string" where
  "duration_str start_time end_time =
     (let total_seconds = elapsed_seconds start_time end_time;
          hours = total_seconds div 3600;
          minutes = (total_seconds mod 3600) div 60;
          seconds = total_seconds mod 60
      in fmt02 hours @ '':'' @ fmt02 minutes @ '':'' @ fmt02 seconds)"

definition save_log_w :: "world \<Rightarrow> string \<Rightarrow> string \<Rightarrow> string \<Rightarrow> string \<Rightarrow> world" where
  "save_log_w w date start_time_str end_time_str dur =
     (case save_log (disk w) date start_time_str end_time_str dur of
        (f, shown) \<Rightarrow> w\<lparr>disk := f, dialogs := dialogs w @ shown\<rparr>)"

definition load_logs_w :: "world \<Rightarrow> world" where
  "load_logs_w w =
     (case load_logs (disk w) of
        (t, shown) \<Rightarrow> w\<lparr>log_tree := t, dialogs := dialogs w @ shown\<rparr>)"

text \<open>The \<^verbatim>\<open>else\<close> branch of \<^verbatim>\<open>toggle_session\<close>: a running session is stopped.\<close>

definition stop_session :: "world \<Rightarrow> world" where
  "stop_session w0 =
     (let w1 = w0\<lparr>timer_id := False, is_session_active := False\<rparr>;
          (session_end_time, w2) = now w1;
          w3 = (case session_start_time w2 of
                  None \<Rightarrow> w2
                | Some start_time \<Rightarrow>
                    load_logs_w
                      (save_log_w w2 (strftime_date start_time) (strftime_time start_time)
                         (strftime_time session_end_time)
                         (duration_str start_time session_end_time)))
      in w3\<lparr>session_start_time := None, is_pomodoro_session := False\<rparr>)"

text \<open>\<^verbatim>\<open>update_timer\<close>. Its call of \<^verbatim>\<open>toggle_session\<close> is made with
  \<^verbatim>\<open>is_session_active\<close> set, so it runs the stop branch; that branch reads the clock
  again, after the message box is closed.\<close>

definition update_timer :: "world \<Rightarrow> world" where
  "update_timer w0 =
     (case session_start_time w0 of
        None \<Rightarrow> w0
      | Some start_time \<Rightarrow>
          if \<not> is_session_active w0 then w0
          else
            (let (t, w1) = now w0;
                 total_seconds_elapsed = elapsed_seconds start_time t
             in if is_pomodoro_session w1 \<and> total_seconds_elapsed \<ge> pomodoro_duration_seconds
                then stop_session (w1\<lparr>dialogs := dialogs w1 @ [PomodoroFinished]\<rparr>)
                else w1\<lparr>timer_id := True\<rparr>))"

definition toggle_session :: "world \<Rightarrow> world" where
  "toggle_session w0 =
     (if \<not> is_session_active w0 then
        (let w1 = w0\<lparr>is_session_active := True\<rparr>;
             (t, w2) = now w1;
             w3 = w2\<lparr>session_start_time := Some t, is_pomodoro_session := pomodoro_var w2\<rparr>
         in update_timer w3)
      else stop_session w0)"

subsection \<open>Notions of the specification\<close>

text \<open>The state \<^verbatim>\<open>Idle\<close> of the timer.\<close>

definition timer_idle :: "world \<Rightarrow> bool" where
  "timer_idle w =
     (\<not> is_session_active w \<and> session_start_time w = None \<and> \<not> is_pomodoro_session w)"






text \<open>A date written \<^verbatim>\<open>YYYY-MM-DD\<close> and a time written \<^verbatim>\<open>HH:MM:SS\<close>, all fields
  zero-padded.\<close>

definition is_iso_date :: "string \<Rightarrow> bool" where
  "is_iso_date s =
     (case split_on CHR ''-'' s of
        [y, m, d] \<Rightarrow>
          length y = 4 \<and> length m = 2 \<and> length d = 2 \<and> list_all is_digit (y @ m @ d)
      | _ \<Rightarrow> False)"

definition is_clock_hms :: "string \<Rightarrow> bool" where
  "is_clock_hms s =
     (case split_on CHR '':'' s of
        [h, m, sec] \<Rightarrow>
          length h = 2 \<and> length m = 2 \<and> length sec = 2 \<and> list_all is_digit (h @ m @ sec)
      | _ \<Rightarrow> False)"

subsection \<open>Example states\<close>

definition example_disk :: fs where
  "example_disk =
     \<lparr>log_dir_exists = True, makedirs_fails = False, append_fails = False,
      read_fails = False, log_file = None\<rparr>"

definition example_start :: datetime where
  "example_start =
     \<lparr>year = 2024, month = 1, day = 1, hour = 9, minute = 0, second = 0, microsecond = 5\<rparr>"

definition example_tick :: datetime where
  "example_tick =
     \<lparr>year = 2024, month = 1, day = 1, hour = 9, minute = 25, second = 0, microsecond = 5\<rparr>"

text \<open>A Pomodoro session that started at \<open>example_start\<close>, with the clock standing at
  \<open>example_tick\<close>, 1500 seconds later.\<close>

definition example_running :: "fs \<Rightarrow> world" where
  "example_running f =
     \<lparr>is_session_active = True, session_start_time = Some example_start, timer_id = True,
      is_pomodoro_session = True, pomodoro_var = True, log_tree = [], disk = f,
      dialogs = [], clock = (\<lambda>n. example_tick), clock_reads = 1\<rparr>"








section \<open>Properties\<close>

subsection \<open>Auxiliary facts\<close>

lemma load_logs_w_fields [simp]:
  "is_session_active (load_logs_w w) = is_session_active w"
  "session_start_time (load_logs_w w) = session_start_time w"
  "is_pomodoro_session (load_logs_w w) = is_pomodoro_session w"
  "disk (load_logs_w w) = disk w"
  "clock (load_logs_w w) = clock w"
  "clock_reads (load_logs_w w) = clock_reads w"
  by (simp_all add: load_logs_w_def split: prod.splits)

lemma save_log_w_fields [simp]:
  "is_session_active (save_log_w w d s e du) = is_session_active w"
  "session_start_time (save_log_w w d s e du) = session_start_time w"
  "is_pomodoro_session (save_log_w w d s e du) = is_pomodoro_session w"
  "disk (save_log_w w d s e du) = fst (save_log (disk w) d s e du)"
  "clock (save_log_w w d s e du) = clock w"
  "clock_reads (save_log_w w d s e du) = clock_reads w"
  by (simp_all add: save_log_w_def split: prod.splits)

lemma stop_session_idle: "timer_idle (stop_session w)"
  by (simp add: timer_idle_def stop_session_def now_def Let_def split: option.splits)

lemma bit_length_bounds: "0 < n \<Longrightarrow> 2 ^ (bit_length n - 1) \<le> n \<and> n < 2 ^ bit_length n"
proof (induction n rule: bit_length.induct)
  case (1 n)
  show ?case
  proof (cases "n div 2 = 0")
    case True
    with 1(2) have "n = 1" by auto
    then show ?thesis by (simp add: bit_length.simps [of "Suc 0"] bit_length.simps [of 0])
  next
    case False
    with 1 have ih: "2 ^ (bit_length (n div 2) - 1) \<le> n div 2" "n div 2 < 2 ^ bit_length (n div 2)"
      by auto
    have pos: "0 < bit_length (n div 2)"
      using False by (simp add: bit_length.simps [of "n div 2"])
    have bl: "bit_length n = Suc (bit_length (n div 2))"
      using 1(2) by (simp add: bit_length.simps [of n])
    from pos obtain j where j: "bit_length (n div 2) = Suc j" by (cases "bit_length (n div 2)") auto
    from ih j have "2 * 2 ^ j \<le> n" "n < 2 * 2 ^ Suc j" by auto
    with bl j show ?thesis by simp
  qed
qed

lemma bit_length_le: "n < 2 ^ j \<Longrightarrow> bit_length n \<le> j"
proof (cases "n = 0")
  case True
  then show ?thesis by (simp add: bit_length.simps [of 0])
next
  case False
  assume "n < 2 ^ j"
  then have nj: "n < 2 ^ j" .
  from False have "2 ^ (bit_length n - 1) \<le> n"
    using bit_length_bounds [of n] by blast
  also note nj
  finally have "(2::nat) ^ (bit_length n - 1) < 2 ^ j" .
  then have "bit_length n - 1 < j" by simp
  then show ?thesis by simp
qed

lemma round_half_even_ge: "a div b \<le> round_half_even a b"
  by (simp add: round_half_even_def Let_def)

lemma round_million_less:
  assumes "2 * a + 1000000 < 2000000 * c"
  shows "round_half_even a 1000000 < c"
proof -
  define q where "q = a div 1000000"
  define r where "r = a mod 1000000"
  have a: "a = 1000000 * q + r" by (simp add: q_def r_def)
  have r: "r < 1000000" by (simp add: r_def)
  have le: "round_half_even a 1000000 \<le> (if 2 * r < 1000000 then q else q + 1)"
    by (simp add: round_half_even_def Let_def q_def r_def)
  show ?thesis
  proof (cases "2 * r < 1000000")
    case True
    from assms a have "q < c" by simp
    with le True show ?thesis by simp
  next
    case False
    from assms a False have "q + 1 < c" by simp
    with le False show ?thesis by simp
  qed
qed

lemma scaled_round_ge:
  assumes "0 < p"
  shows "x div 1000000 \<le> round_half_even (x * p) 1000000 div p"
proof -
  have "x div 1000000 * 1000000 \<le> x" by simp
  then have "x div 1000000 * 1000000 * p \<le> x * p" by (rule mult_le_mono1)
  then have "x div 1000000 * p * 1000000 \<le> x * p" by (simp add: mult_ac)
  then have "x div 1000000 * p \<le> (x * p) div 1000000"
    by (simp add: less_eq_div_iff_mult_less_eq)
  also have "\<dots> \<le> round_half_even (x * p) 1000000" by (rule round_half_even_ge)
  finally show ?thesis
    using assms by (simp add: less_eq_div_iff_mult_less_eq)
qed

lemma scaled_round:
  assumes "524288 \<le> p"
  shows "round_half_even (x * p) 1000000 div p = x div 1000000"
proof -
  define n where "n = x div 1000000"
  have x: "x \<le> 1000000 * n + 999999"
    unfolding n_def by arith
  from assms have pos: "0 < p" by simp
  have lo: "n \<le> round_half_even (x * p) 1000000 div p"
    unfolding n_def using pos by (rule scaled_round_ge)
  from x have "x * p \<le> (1000000 * n + 999999) * p" by (rule mult_le_mono1)
  then have xp: "x * p \<le> 1000000 * (n * p) + 999999 * p" by (simp add: algebra_simps)
  have "2 * (x * p) + 1000000 < 2000000 * ((n + 1) * p)"
  proof -
    have "2000000 * ((n + 1) * p) = 2000000 * (n * p) + 2000000 * p" by (simp add: algebra_simps)
    with xp assms show ?thesis by linarith
  qed
  then have "round_half_even (x * p) 1000000 < (n + 1) * p" by (rule round_million_less)
  then have "round_half_even (x * p) 1000000 div p < n + 1"
    using pos by (simp add: div_less_iff_less_mult)
  with lo show ?thesis unfolding n_def by simp
qed

lemma total_seconds_int_small:
  assumes "x div 1000000 < 2 ^ 34"
  shows "total_seconds_int x = x div 1000000"
proof (cases "x < 1000000")
  case True
  then show ?thesis by (simp add: total_seconds_int_def)
next
  case False
  from assms have "bit_length (x div 1000000) \<le> 34" by (rule bit_length_le)
  then have k: "bit_length (x div 1000000) - 1 \<le> 33" by simp
  then have "(2::nat) ^ 19 \<le> 2 ^ (52 - (bit_length (x div 1000000) - 1))"
    by (intro power_increasing) simp_all
  then have "524288 \<le> (2::nat) ^ (52 - (bit_length (x div 1000000) - 1))" by simp
  then have "round_half_even (x * 2 ^ (52 - (bit_length (x div 1000000) - 1))) 1000000
      div 2 ^ (52 - (bit_length (x div 1000000) - 1)) = x div 1000000"
    by (rule scaled_round)
  with False k show ?thesis by (simp add: total_seconds_int_def Let_def)
qed

lemma total_seconds_int_large:
  assumes "\<not> x div 1000000 < 2 ^ 34"
  shows "1500 \<le> total_seconds_int x"
proof -
  define n where "n = x div 1000000"
  define k where "k = bit_length n - 1"
  from assms have n: "2 ^ 34 \<le> n" by (simp add: n_def)
  then have npos: "0 < n" by simp
  have kn: "2 ^ k \<le> n" unfolding k_def using bit_length_bounds [OF npos] by blast
  from n have big: "\<not> x < 1000000" unfolding n_def by simp
  show ?thesis
  proof (cases "k \<le> 52")
    case True
    have "n \<le> round_half_even (x * 2 ^ (52 - k)) 1000000 div 2 ^ (52 - k)"
      unfolding n_def by (rule scaled_round_ge) simp
    with n True big show ?thesis
      by (simp add: total_seconds_int_def Let_def k_def n_def)
  next
    case False
    then have split: "k = 52 + (k - 52)" by simp
    have "(2::nat) ^ 52 * 2 ^ (k - 52) = 2 ^ k"
      by (subst (2) split) (simp add: power_add)
    with kn have "2 ^ 52 * 2 ^ (k - 52) \<le> n" by simp
    then have "2 ^ 52 \<le> n div 2 ^ (k - 52)"
      by (simp add: less_eq_div_iff_mult_less_eq)
    also have "n div 2 ^ (k - 52) = x div (1000000 * 2 ^ (k - 52))"
      unfolding n_def by (simp add: div_mult2_eq)
    also have "\<dots> \<le> round_half_even x (1000000 * 2 ^ (k - 52))" by (rule round_half_even_ge)
    finally have "2 ^ 52 \<le> round_half_even x (1000000 * 2 ^ (k - 52))" .
    then have "2 ^ 52 * 1 \<le> round_half_even x (1000000 * 2 ^ (k - 52)) * 2 ^ (k - 52)"
      by (intro mult_le_mono) simp_all
    then have "1500 \<le> round_half_even x (1000000 * 2 ^ (k - 52)) * 2 ^ (k - 52)" by simp
    with False big show ?thesis
      by (simp add: total_seconds_int_def Let_def k_def n_def)
  qed
qed

lemma total_seconds_int_ge_1500: "(1500 \<le> total_seconds_int x) = (1500000000 \<le> x)"
proof (cases "x div 1000000 < 2 ^ 34")
  case True
  then have "total_seconds_int x = x div 1000000" by (rule total_seconds_int_small)
  then show ?thesis by arith
next
  case False
  then have "1500 \<le> total_seconds_int x" by (rule total_seconds_int_large)
  moreover from False have "1500000000 \<le> x" by simp
  ultimately show ?thesis by simp
qed

lemma int_total_seconds_ge_1500: "(1500 \<le> int_total_seconds d) = (1500000000 \<le> d)"
proof (cases "d < 0")
  case True
  then show ?thesis by (simp add: int_total_seconds_def)
next
  case False
  then have "(1500 \<le> int_total_seconds d) = (1500 \<le> total_seconds_int (nat d))"
    by (simp add: int_total_seconds_def)
  also have "\<dots> = (1500000000 \<le> nat d)" by (rule total_seconds_int_ge_1500)
  also from False have "\<dots> = (1500000000 \<le> d)" by arith
  finally show ?thesis .
qed

lemma elapsed_ge_1500: "(1500 \<le> elapsed_seconds a b) = (1500000000 \<le> micros b - micros a)"
  by (simp add: elapsed_seconds_def int_total_seconds_ge_1500)

lemma int_total_seconds_exact:
  assumes "0 \<le> d" and "d < 17179869184000000"
  shows "int_total_seconds d = d div 1000000"
proof -
  from assms have "nat d div 1000000 < 2 ^ 34" by simp
  then have "total_seconds_int (nat d) = nat d div 1000000" by (rule total_seconds_int_small)
  with assms(1) show ?thesis
    by (simp add: int_total_seconds_def zdiv_int)
qed


lemma example_elapsed: "micros example_tick - micros example_start = 1500000000"
  by (simp add: micros_def example_tick_def example_start_def toordinal_def)

subsection \<open>Loading an absent or empty log\<close>

text \<open>Claim C5. Loading when the log file does not exist, or exists with zero length, yields
  zero day groups and shows no error message.\<close>

theorem empty_log_loads_nothing:
  "log_file f = None \<or> log_file f = Some [] \<Longrightarrow> load_logs f = ([], [])"
  by (auto simp: load_logs_def)

theorem empty_log_loads_nothing_witness:
  "load_logs example_disk = ([], []) \<and> load_logs (example_disk\<lparr>log_file := Some []\<rparr>) = ([], [])"
  using empty_log_loads_nothing [of example_disk]
    empty_log_loads_nothing [of "example_disk\<lparr>log_file := Some []\<rparr>"]
  by (simp add: example_disk_def)

subsection \<open>Stopping always ends in the idle state\<close>

text \<open>Claim C10. After a stop transition, manual (\<^verbatim>\<open>toggle_session\<close> on a running
  session) or automatic (\<^verbatim>\<open>update_timer\<close> on a Pomodoro session with at least 1500
  seconds elapsed), the timer is idle: \<^verbatim>\<open>is_session_active\<close> is false,
  \<^verbatim>\<open>session_start_time\<close> is \<^verbatim>\<open>None\<close> and \<^verbatim>\<open>is_pomodoro_session\<close> is false.
  Nothing is assumed about the file system, so this holds whether or not the record could
  be saved.\<close>

theorem stop_always_idle:
  "(is_session_active w \<longrightarrow> timer_idle (toggle_session w)) \<and>
   (is_session_active w \<and> session_start_time w = Some s \<and> is_pomodoro_session w \<and>
    1500000000 \<le> micros (clock w (clock_reads w)) - micros s
      \<longrightarrow> timer_idle (update_timer w))"
  by (simp add: toggle_session_def update_timer_def now_def Let_def stop_session_idle
      elapsed_ge_1500 pomodoro_duration_seconds_def)

text \<open>The witness stops a session whose record cannot be saved: opening the file fails.\<close>

theorem stop_always_idle_witness:
  "timer_idle (toggle_session (example_running (example_disk\<lparr>append_fails := True\<rparr>))) \<and>
   timer_idle (update_timer (example_running (example_disk\<lparr>append_fails := True\<rparr>))) \<and>
   dialogs (toggle_session (example_running (example_disk\<lparr>append_fails := True\<rparr>)))
     = [FileWriteError]"
proof -
  let ?w = "example_running (example_disk\<lparr>append_fails := True\<rparr>)"
  have active: "is_session_active ?w" "session_start_time ?w = Some example_start"
    "is_pomodoro_session ?w" "clock ?w (clock_reads ?w) = example_tick"
    by (simp_all add: example_running_def)
  have idle: "timer_idle (toggle_session ?w)" "timer_idle (update_timer ?w)"
    using stop_always_idle [of ?w example_start] active example_elapsed by simp_all
  have "dialogs (toggle_session ?w) = [FileWriteError]"
    by (simp add: toggle_session_def stop_session_def now_def Let_def example_running_def
        save_log_w_def save_log_def load_logs_w_def load_logs_def example_disk_def)
  with idle show ?thesis by simp
qed

subsection \<open>Printing and reading numbers\<close>

lemma digit_char_props: "n < 10 \<Longrightarrow> is_digit (digit_char n) \<and> digit_val (digit_char n) = n"
proof -
  assume "n < 10"
  then have "n \<in> {0,1,2,3,4,5,6,7,8,9}" by auto
  then show ?thesis
    by (auto simp: is_digit_def digit_val_def digit_char_def)
qed

lemma str_nat_digits: "list_all is_digit (str_nat n)"
proof (induction n rule: str_nat.induct)
  case (1 n)
  show ?case
  proof (cases "n < 10")
    case True
    then show ?thesis by (simp add: str_nat.simps [of n] digit_char_props)
  next
    case False
    with 1 show ?thesis by (simp add: str_nat.simps [of n] digit_char_props)
  qed
qed

lemma str_nat_nonempty: "str_nat n \<noteq> []"
  by (subst str_nat.simps) simp

lemma str_nat_value: "fold (\<lambda>c a. 10 * a + digit_val c) (str_nat n) 0 = n"
proof (induction n rule: str_nat.induct)
  case (1 n)
  show ?case
  proof (cases "n < 10")
    case True
    then show ?thesis by (simp add: str_nat.simps [of n] digit_char_props)
  next
    case False
    with 1 show ?thesis by (simp add: str_nat.simps [of n] digit_char_props)
  qed
qed

lemma parse_digits_all_digits:
  "list_all is_digit xs \<Longrightarrow>
   parse_digits acc xs = Some (fold (\<lambda>c a. 10 * a + digit_val c) xs acc)"
  by (induction xs arbitrary: acc) auto

lemma parse_unsigned_all_digits:
  "list_all is_digit xs \<Longrightarrow> xs \<noteq> [] \<Longrightarrow>
   parse_unsigned xs = Some (fold (\<lambda>c a. 10 * a + digit_val c) xs 0)"
  by (cases xs) (auto simp: parse_unsigned_def parse_digits_all_digits)

lemma is_digit_zero: "is_digit CHR ''0''" "digit_val CHR ''0'' = 0"
  by (simp_all add: is_digit_def digit_val_def)

lemma funpow_zeros: "((\<lambda>a::nat. 10 * a + digit_val CHR ''0'') ^^ k) 0 = 0"
  by (induction k) (simp_all add: is_digit_zero)

lemma zfill_digits: "list_all is_digit (zfill w (str_nat n))"
  using str_nat_digits [of n] by (auto simp: zfill_def list_all_iff is_digit_zero)

lemma parse_unsigned_zfill: "parse_unsigned (zfill w (str_nat n)) = Some n"
proof -
  have "zfill w (str_nat n) \<noteq> []" by (simp add: zfill_def str_nat_nonempty)
  then show ?thesis
    using parse_unsigned_all_digits [OF zfill_digits, of w n]
    by (simp add: zfill_def funpow_zeros str_nat_value)
qed

lemma digit_not_space: "is_digit c \<Longrightarrow> \<not> is_space c"
  by (auto simp: is_digit_def is_space_def)

lemma strip_no_space: "\<forall>c \<in> set s. \<not> is_space c \<Longrightarrow> strip s = s"
proof -
  assume a: "\<forall>c \<in> set s. \<not> is_space c"
  then have "dropWhile is_space s = s" by (cases s) auto
  moreover from a have "dropWhile is_space (rev s) = rev s" by (cases "rev s") (auto simp: )
  ultimately show ?thesis by (simp add: strip_def)
qed

lemma zfill_no_space: "\<forall>c \<in> set (zfill w (str_nat n)). \<not> is_space c"
  using zfill_digits [of w n] by (simp add: list_all_iff digit_not_space)

lemma minus_no_space: "\<not> is_space CHR ''-''"
  by (simp add: is_space_def)

lemma fmt02_strip: "strip (fmt02 n) = fmt02 n"
  by (rule strip_no_space) (auto simp: fmt02_def zfill_no_space minus_no_space)

lemma py_int_fmt02: "py_int (fmt02 n) = Inr n"
proof (cases "n < 0")
  case True
  then show ?thesis
    unfolding py_int_def fmt02_strip
    by (simp add: fmt02_def parse_unsigned_zfill)
next
  case False
  obtain c cs where z: "zfill 2 (str_nat (nat n)) = c # cs"
    by (cases "zfill 2 (str_nat (nat n))") (auto simp: zfill_def str_nat_nonempty)
  have d: "is_digit c" using zfill_digits [of 2 "nat n"] z by simp
  then have "c \<noteq> CHR ''-''" "c \<noteq> CHR ''+''" by (auto simp: is_digit_def)
  with False z show ?thesis
    using parse_unsigned_zfill [of 2 "nat n"]
    unfolding py_int_def fmt02_strip
    by (simp add: fmt02_def)
qed

lemma split_on_none: "c \<notin> set a \<Longrightarrow> split_on c a = [a]"
  by (induction a) auto

lemma split_on_append: "c \<notin> set a \<Longrightarrow> split_on c (a @ c # rest) = a # split_on c rest"
  by (induction a) auto

lemma colon_no_digit: "\<not> is_digit CHR '':''"
  by (simp add: is_digit_def)

lemma fmt02_no_colon: "CHR '':'' \<notin> set (fmt02 n)"
proof -
  have "CHR '':'' \<notin> set (zfill w (str_nat k))" for w k
    using zfill_digits [of w k] colon_no_digit by (auto simp: list_all_iff)
  then show ?thesis by (simp add: fmt02_def)
qed

lemma split_on_hms:
  "split_on CHR '':'' (fmt02 h @ CHR '':'' # fmt02 m @ CHR '':'' # fmt02 s) =
   [fmt02 h, fmt02 m, fmt02 s]"
  by (simp only: split_on_append [OF fmt02_no_colon] split_on_none [OF fmt02_no_colon])

lemma map_int_hms: "map_int [fmt02 h, fmt02 m, fmt02 s] = Inr [h, m, s]"
  by (simp add: py_int_fmt02)

lemma parse_duration_fmt:
  "parse_duration (fmt02 h @ CHR '':'' # fmt02 m @ CHR '':'' # fmt02 s) =
   Inr (h * 3600 + m * 60 + s)"
  unfolding parse_duration_def split_on_hms map_int_hms by simp

lemma hms_recompose: "(t::int) div 3600 * 3600 + t mod 3600 div 60 * 60 + t mod 60 = t"
proof -
  have a: "t mod 3600 div 60 * 60 + t mod 3600 mod 60 = t mod 3600"
    by (rule div_mult_mod_eq)
  have b: "t mod 3600 mod 60 = t mod 60"
    by (rule mod_mod_cancel) simp
  have c: "t div 3600 * 3600 + t mod 3600 = t"
    by (rule div_mult_mod_eq)
  have "t div 3600 * 3600 + t mod 3600 div 60 * 60 + t mod 60 =
        t div 3600 * 3600 + (t mod 3600 div 60 * 60 + t mod 3600 mod 60)"
    by (simp only: b add.assoc)
  also have "\<dots> = t div 3600 * 3600 + t mod 3600" by (simp only: a)
  also have "\<dots> = t" by (rule c)
  finally show ?thesis .
qed

lemma parse_format_duration: "parse_duration (format_duration_seconds t) = Inr t"
  by (simp add: format_duration_seconds_def Let_def parse_duration_fmt hms_recompose)


subsection \<open>Appending to the log\<close>





lemma needs_quote_append [simp]: "needs_quote (a @ b) = (needs_quote a \<or> needs_quote b)"
  by (simp add: needs_quote_def)








lemma str_nat_length: "n < 10 ^ k \<Longrightarrow> 0 < k \<Longrightarrow> length (str_nat n) \<le> k"
proof (induction n arbitrary: k rule: str_nat.induct)
  case (1 n)
  show ?case
  proof (cases "n < 10")
    case True
    with 1 show ?thesis by (simp add: str_nat.simps [of n])
  next
    case False
    obtain j where k: "k = Suc j" using 1 by (cases k) auto
    with False 1 have "0 < j" by (cases j) auto
    moreover from k 1 have "n div 10 < 10 ^ j" by (simp add: less_mult_imp_div_less mult.commute)
    ultimately have "length (str_nat (n div 10)) \<le> j" using 1 False by simp
    with False k show ?thesis by (simp add: str_nat.simps [of n])
  qed
qed

lemma zfill_length: "length (zfill w s) = max w (length s)"
  by (simp add: zfill_def)

lemma zfill2_length: "n < 100 \<Longrightarrow> length (zfill 2 (str_nat n)) = 2"
  using str_nat_length [of n 2] by (simp add: zfill_length)

subsection \<open>Shapes of the printed strings\<close>

lemma fmt02_nonneg_length: "0 \<le> n \<Longrightarrow> 2 \<le> length (fmt02 n)"
  by (simp add: fmt02_def zfill_length)



lemma zfill_value: "fold (\<lambda>c a. 10 * a + digit_val c) (zfill w (str_nat n)) 0 = n"
  by (simp add: zfill_def funpow_zeros str_nat_value)








lemma example_strings:
  "strftime_date example_start = ''2024-01-01''"
  "strftime_time example_start = ''09:00:00''"
  "strftime_time example_tick = ''09:25:00''"
  by code_simp+

lemma example_duration: "duration_str example_start example_tick = ''00:25:00''"
proof -
  have e: "elapsed_seconds example_start example_tick = 1500"
    by (simp add: elapsed_seconds_def example_elapsed int_total_seconds_exact)
  show ?thesis
    unfolding duration_str_def e by code_simp
qed

lemma zfill_no_sep: "CHR '':'' \<notin> set (zfill w (str_nat k))" "CHR ''-'' \<notin> set (zfill w (str_nat k))"
proof -
  have "\<not> is_digit CHR ''-''" by (simp add: is_digit_def)
  then show "CHR '':'' \<notin> set (zfill w (str_nat k))" "CHR ''-'' \<notin> set (zfill w (str_nat k))"
    using zfill_digits [of w k] colon_no_digit by (auto simp: list_all_iff)
qed

lemma split_on_three:
  "c \<notin> set x \<Longrightarrow> c \<notin> set y \<Longrightarrow> c \<notin> set z \<Longrightarrow> split_on c (x @ c # y @ c # z) = [x, y, z]"
  by (simp add: split_on_append split_on_none)

lemma zfill4_length: "n < 10000 \<Longrightarrow> length (zfill 4 (str_nat n)) = 4"
  using str_nat_length [of n 4] by (simp add: zfill_length)

lemma strftime_date_iso: "valid_datetime t \<Longrightarrow> is_iso_date (strftime_date t)"
proof -
  assume v: "valid_datetime t"
  then have "year t < 10000" "month t < 100" "day t < 100"
    by (auto simp: valid_datetime_def days_in_month_def split: if_splits)
  then show ?thesis
    unfolding is_iso_date_def strftime_date_def
    by (simp add: split_on_three zfill_no_sep zfill_digits zfill2_length zfill4_length)
qed

lemma strftime_time_clock: "valid_datetime t \<Longrightarrow> is_clock_hms (strftime_time t)"
proof -
  assume v: "valid_datetime t"
  then have "hour t < 100" "minute t < 100" "second t < 100"
    by (auto simp: valid_datetime_def)
  then show ?thesis
    unfolding is_clock_hms_def strftime_time_def
    by (simp add: split_on_three zfill_no_sep zfill_digits zfill2_length)
qed

lemma two_digit_field_zfill:
  "n \<le> b \<Longrightarrow> n < 100 \<Longrightarrow> two_digit_field (zfill 2 (str_nat n)) b = Some n"
  by (simp add: two_digit_field_def zfill2_length zfill_digits zfill_value)

lemma strptime_strftime:
  "valid_datetime t \<Longrightarrow> strptime_hms (strftime_time t) = Inr (hour t, minute t, second t)"
proof -
  assume v: "valid_datetime t"
  then have "hour t \<le> 23" "minute t \<le> 59" "second t \<le> 59" "hour t < 100" "minute t < 100" "second t < 100"
    by (auto simp: valid_datetime_def)
  then show ?thesis
    unfolding strptime_hms_def strftime_time_def
    by (simp add: split_on_three zfill_no_sep two_digit_field_zfill)
qed

subsection \<open>The stored duration\<close>















end
